theory Spec2Isabelle
  imports Complex_Main
begin

section \<open>SquareCut: the centred square crop of \<open>src/App.tsx\<close>\<close>

text \<open>
  The component \<open>App\<close> keeps four pieces of React state and three handlers that
  change them: \<open>onFileChange\<close> (with the \<open>onload\<close> callback of its file reader),
  \<open>reset\<close> and the asynchronous \<open>handleAutoCrop\<close>; \<open>downloadImage\<close> only reads the
  state and drives the DOM. The handlers are embedded as functions on a record of the
  state. The three helpers of \<open>utils/imageUtils\<close> are not among the sources:
  \<open>createImage\<close> and \<open>getCroppedImg\<close> are parameters of the model, and
  \<open>getMinSideLength\<close> follows the specification's wording. Where a property is
  about the rendered output, the renderer follows the specification's wording too.
\<close>

subsection \<open>Data\<close>

text \<open>
  The decoded image as \<open>handleAutoCrop\<close> reads it: \<open>img.width\<close> and \<open>img.height\<close>,
  whole numbers of pixels.
\<close>

record Image =
  width :: int
  height :: int

text \<open>
  The type \<open>Area\<close> of \<open>./types\<close>, as the object literal \<open>pixelCrop\<close> builds it. Its
  fields are JavaScript numbers. The only arithmetic applied to them is a difference
  of two pixel counts and a division by two, both exact in IEEE doubles for pixel
  counts below \<open>2^53\<close>, so the rationals model them without loss.
\<close>

record Area =
  x :: rat
  y :: rat
  width :: rat
  height :: rat

text \<open>What a rejected promise of the pipeline carries.\<close>

datatype failure = DecodeError | RenderError

text \<open>The four \<open>useState\<close> cells of \<open>App\<close>; \<open>null\<close> is \<open>None\<close>.\<close>

record AppState =
  imageSrc :: "string option"
  croppedImage :: "string option"
  isProcessing :: bool
  error :: "string option"

text \<open>
  JavaScript's \<open>!s\<close> on a value of type \<open>string | null\<close>: true for \<open>null\<close> and
  for the empty string.
\<close>

definition falsy :: "string option \<Rightarrow> bool" where
  "falsy s = (case s of None \<Rightarrow> True | Some t \<Rightarrow> t = [])"

subsection \<open>Selecting a file and resetting\<close>

text \<open>
  \<open>onFileChange\<close> starts a reader for the first selected file, if there is one; the
  state changes only later, when the reader's \<open>onload\<close> fires with the data URL.
  The result of \<open>onFileChange\<close> is the file a reader was started for.
\<close>

definition onFileChange :: "'f list option \<Rightarrow> 'f option" where
  "onFileChange files =
     (case files of
        None \<Rightarrow> None
      | Some fs \<Rightarrow> (if length fs > 0 then Some (fs ! 0) else None))"

definition reader_onload :: "string \<Rightarrow> AppState \<Rightarrow> AppState" where
  "reader_onload result st =
     st\<lparr>imageSrc := Some result, croppedImage := None, error := None\<rparr>"

text \<open>\<open>reset\<close>, on the React state (it also empties the file input of the DOM).\<close>

definition reset :: "AppState \<Rightarrow> AppState" where
  "reset st = st\<lparr>imageSrc := None, croppedImage := None, error := None\<rparr>"

subsection \<open>Planning the crop\<close>

text \<open>
  Modelled from the spec: \<open>getMinSideLength\<close> of \<open>utils/imageUtils\<close>, which is not
  among the sources. The specification's planner takes
  \<open>side = min(bitmap.width, bitmap.height)\<close>.
\<close>

definition getMinSideLength :: "Image \<Rightarrow> int" where
  "getMinSideLength img = min (Image.width img) (Image.height img)"

text \<open>
  Lines 55 to 66 of \<open>handleAutoCrop\<close>: \<open>minSide\<close>, \<open>startX\<close>, \<open>startY\<close> and the
  object \<open>pixelCrop\<close>. The division is JavaScript's \<open>/\<close>, which does not round.
\<close>

definition pixelCrop :: "Image \<Rightarrow> Area" where
  "pixelCrop img =
     (let minSide = getMinSideLength img;
          startX = (of_int (Image.width img) - of_int minSide) / 2;
          startY = (of_int (Image.height img) - of_int minSide) / 2
      in \<lparr>x = startX, y = startY, width = of_int minSide, height = of_int minSide\<rparr>)"

subsection \<open>The crop operation\<close>

text \<open>
  The body of the \<open>try\<close> block between its two \<open>await\<close>s touches no state: it
  decodes the captured source, plans the region and hands both to the renderer.
  A rejection of either promise leaves the block with the failure.
\<close>

definition cropTask ::
  "(string \<Rightarrow> failure + Image) \<Rightarrow> (string \<Rightarrow> Area \<Rightarrow> failure + string) \<Rightarrow> string
     \<Rightarrow> failure + string" where
  "cropTask createImage getCroppedImg src =
     (case createImage src of
        Inl e \<Rightarrow> Inl e
      | Inr img \<Rightarrow> getCroppedImg src (pixelCrop img))"

text \<open>
  \<open>handleAutoCrop\<close> up to its first \<open>await\<close>: the guard on \<open>imageSrc\<close>, then
  \<open>setIsProcessing(true)\<close>. The second component is the source the pending task has
  captured, \<open>None\<close> when the guard returned.
\<close>

definition handleAutoCrop_start :: "AppState \<Rightarrow> AppState \<times> string option" where
  "handleAutoCrop_start st =
     (if falsy (imageSrc st) then (st, None)
      else (st\<lparr>isProcessing := True\<rparr>, imageSrc st))"

text \<open>
  \<open>handleAutoCrop\<close> after its last \<open>await\<close>: \<open>setCroppedImage\<close> on success, the
  \<open>catch\<close> block's \<open>setError\<close> on failure, and the \<open>finally\<close> block. The setters
  act on the state that is current when the task settles. (\<open>console.error\<close> writes
  to the console, not to the state.)
\<close>

definition handleAutoCrop_settle :: "failure + string \<Rightarrow> AppState \<Rightarrow> AppState" where
  "handleAutoCrop_settle outcome st =
     (case outcome of
        Inr croppedResult \<Rightarrow> st\<lparr>croppedImage := Some croppedResult, isProcessing := False\<rparr>
      | Inl err \<Rightarrow>
          st\<lparr>error := Some ''Failed to process image. Please try another one.'',
             isProcessing := False\<rparr>)"

text \<open>A whole run of \<open>handleAutoCrop\<close> with no other handler in between.\<close>

definition handleAutoCrop ::
  "(string \<Rightarrow> failure + Image) \<Rightarrow> (string \<Rightarrow> Area \<Rightarrow> failure + string) \<Rightarrow> AppState
     \<Rightarrow> AppState" where
  "handleAutoCrop createImage getCroppedImg st =
     (case handleAutoCrop_start st of
        (st1, None) \<Rightarrow> st1
      | (st1, Some src) \<Rightarrow>
          handleAutoCrop_settle (cropTask createImage getCroppedImg src) st1)"

subsection \<open>Downloading\<close>

text \<open>
  The anchor element \<open>downloadImage\<close> creates, and what it does with it on
  \<open>document.body\<close>, in order.
\<close>

record Anchor =
  href :: string
  download :: string

datatype dom_effect = AppendChild Anchor | Click Anchor | RemoveChild Anchor

definition downloadImage :: "AppState \<Rightarrow> dom_effect list" where
  "downloadImage st =
     (case croppedImage st of
        None \<Rightarrow> []
      | Some c \<Rightarrow>
          (if c = [] then []
           else (let link = \<lparr>href = c, download = ''square-crop.jpg''\<rparr>
                 in [AppendChild link, Click link, RemoveChild link])))"

subsection \<open>Stand-ins for the decoder and the renderer\<close>

text \<open>
  Concrete collaborators for evaluating the handlers: a decoder that reports fixed
  dimensions, one that always rejects, a renderer that names the region it was given,
  and one that always rejects.
\<close>

definition decodeAs :: "int \<Rightarrow> int \<Rightarrow> string \<Rightarrow> failure + Image" where
  "decodeAs w h src = Inr \<lparr>Image.width = w, Image.height = h\<rparr>"

definition decodeFails :: "string \<Rightarrow> failure + Image" where
  "decodeFails src = Inl DecodeError"

definition renderTag :: "string \<Rightarrow> Area \<Rightarrow> failure + string" where
  "renderTag src a = Inr (''crop-of-'' @ src)"

definition renderFails :: "string \<Rightarrow> Area \<Rightarrow> failure + string" where
  "renderFails src a = Inl RenderError"

text \<open>A state with a source loaded and nothing else.\<close>

definition loadedState :: "string \<Rightarrow> AppState" where
  "loadedState src = \<lparr>imageSrc = Some src, croppedImage = None, isProcessing = False, error = None\<rparr>"

subsection \<open>The renderer\<close>

text \<open>
  Modelled from the spec: the pixel surface of the renderer, \<open>getCroppedImg\<close> of
  \<open>utils/imageUtils\<close>, which is not among the sources. The specification's renderer
  allocates a fresh surface of \<open>region.width\<close> by \<open>region.height\<close> and copies the
  source pixels from \<open>(region.x, region.y)\<close> through
  \<open>(region.x + region.width, region.y + region.height)\<close> onto the surface at origin
  \<open>(0, 0)\<close>, without resampling. The surface is described by its size and by the
  rectangle copied onto it; the values of the pixels are not modelled.
\<close>

record Surface =
  surfaceWidth :: rat
  surfaceHeight :: rat
  copyFromX :: rat
  copyFromY :: rat
  copyToX :: rat
  copyToY :: rat
  originX :: rat
  originY :: rat

definition drawRegion :: "Area \<Rightarrow> Surface" where
  "drawRegion region =
     \<lparr>surfaceWidth = Area.width region, surfaceHeight = Area.height region,
      copyFromX = x region, copyFromY = y region,
      copyToX = x region + Area.width region, copyToY = y region + Area.height region,
      originX = 0, originY = 0\<rparr>"

text \<open>
  Modelled from the spec: the encoded output of the renderer, which \<open>utils/imageUtils\<close>
  would produce. The specification's \<open>EncodedOutput\<close> is the cropped image in an
  encoded representation, at the width and height of the crop region.
\<close>

record EncodedOutput =
  outputWidth :: rat
  outputHeight :: rat
  encoded :: string

text \<open>
  Modelled from the spec: \<open>render(bitmap, region)\<close>, the body of \<open>getCroppedImg\<close>,
  which is not among the sources. It acquires the surface, draws the region of the
  bitmap on it and encodes the surface; it fails with \<open>RenderError\<close> if the surface
  cannot be acquired or the encoding fails. Acquiring and encoding are the platform's
  and are parameters.
\<close>

definition render ::
  "(rat \<Rightarrow> rat \<Rightarrow> bool) \<Rightarrow> (Image \<Rightarrow> Surface \<Rightarrow> failure + string) \<Rightarrow> Image \<Rightarrow> Area
     \<Rightarrow> failure + EncodedOutput" where
  "render acquire encode bitmap region =
     (if \<not> acquire (Area.width region) (Area.height region) then Inl RenderError
      else (case encode bitmap (drawRegion region) of
              Inl e \<Rightarrow> Inl RenderError
            | Inr url \<Rightarrow>
                Inr \<lparr>outputWidth = surfaceWidth (drawRegion region),
                     outputHeight = surfaceHeight (drawRegion region),
                     encoded = url\<rparr>))"

text \<open>
  Modelled from the spec: \<open>getCroppedImg\<close> of \<open>utils/imageUtils\<close>, which is not
  among the sources, as \<open>handleAutoCrop\<close> calls it: with the image source and the
  region. It loads the bitmap of the source with the image loader, renders the region
  and returns the encoded representation.
\<close>

definition getCroppedImg_spec ::
  "(string \<Rightarrow> failure + Image) \<Rightarrow> (rat \<Rightarrow> rat \<Rightarrow> bool) \<Rightarrow> (Image \<Rightarrow> Surface \<Rightarrow> failure + string)
     \<Rightarrow> string \<Rightarrow> Area \<Rightarrow> failure + string" where
  "getCroppedImg_spec createImage acquire encode src region =
     (case createImage src of
        Inl e \<Rightarrow> Inl e
      | Inr bitmap \<Rightarrow>
          (case render acquire encode bitmap region of
             Inl e \<Rightarrow> Inl e
           | Inr out \<Rightarrow> Inr (encoded out)))"

text \<open>A platform that always grants the surface and encodes every surface alike.\<close>

definition acquireAlways :: "rat \<Rightarrow> rat \<Rightarrow> bool" where
  "acquireAlways w h = True"

definition encodeJpeg :: "Image \<Rightarrow> Surface \<Rightarrow> failure + string" where
  "encodeJpeg bitmap surface = Inr ''data:image/jpeg''"

subsection \<open>The interface around the handlers\<close>

text \<open>
  The JSX of \<open>App\<close> decides which handler can be called in which state. The upload
  area with its file input is rendered while \<open>imageSrc\<close> is falsy (line 113). The crop
  button and the cancel button are rendered while a source is there and
  \<open>croppedImage\<close> is falsy, and both are disabled while \<open>isProcessing\<close> (lines 152 to
  162 and 193 to 202). The download button and the button for choosing another image
  are rendered once \<open>croppedImage\<close> is there (lines 163 to 184).
\<close>

definition uploadRendered :: "AppState \<Rightarrow> bool" where
  "uploadRendered st = falsy (imageSrc st)"

definition cropButtonEnabled :: "AppState \<Rightarrow> bool" where
  "cropButtonEnabled st =
     (\<not> falsy (imageSrc st) \<and> falsy (croppedImage st) \<and> \<not> isProcessing st)"

definition cancelButtonEnabled :: "AppState \<Rightarrow> bool" where
  "cancelButtonEnabled st =
     (\<not> falsy (imageSrc st) \<and> falsy (croppedImage st) \<and> \<not> isProcessing st)"

definition resultButtonsRendered :: "AppState \<Rightarrow> bool" where
  "resultButtonsRendered st = (\<not> falsy (imageSrc st) \<and> \<not> falsy (croppedImage st))"

text \<open>
  The platform's \<open>readAsDataURL\<close>: the result of the reader is a data URL of the file,
  a string that begins with \<open>data:\<close>.
\<close>

definition readAsDataURL :: "string \<Rightarrow> string" where
  "readAsDataURL file = ''data:'' @ file"

text \<open>
  The running application: the React state, the results of the file readers that have
  not fired yet, and the sources captured by the crop tasks that have not settled yet.
\<close>

record UI =
  app :: AppState
  readers :: "string list"
  tasks :: "string list"

definition initialUI :: UI where
  "initialUI =
     \<lparr>app = \<lparr>imageSrc = None, croppedImage = None, isProcessing = False, error = None\<rparr>,
      readers = [], tasks = []\<rparr>"

text \<open>
  What can happen to it: the user chooses files in the file input, a reader fires its
  \<open>onload\<close>, the user clicks one of the buttons, or a crop task settles. An event
  that the interface does not offer in a state has no successor.
\<close>

datatype event =
    FilesChosen "string list option"
  | ReaderLoaded string
  | ClickCrop
  | TaskSettled string
  | ClickCancel
  | ClickDownload
  | ClickChooseAnother

fun ui_step ::
  "(string \<Rightarrow> failure + Image) \<Rightarrow> (string \<Rightarrow> Area \<Rightarrow> failure + string) \<Rightarrow> event \<Rightarrow> UI
     \<Rightarrow> UI option" where
  "ui_step createImage getCroppedImg (FilesChosen files) s =
     (if uploadRendered (app s)
      then (case onFileChange files of
              None \<Rightarrow> Some s
            | Some file \<Rightarrow> Some (s\<lparr>readers := readers s @ [readAsDataURL file]\<rparr>))
      else None)"
| "ui_step createImage getCroppedImg (ReaderLoaded result) s =
     (if result \<in> set (readers s)
      then Some (s\<lparr>app := reader_onload result (app s), readers := remove1 result (readers s)\<rparr>)
      else None)"
| "ui_step createImage getCroppedImg ClickCrop s =
     (if cropButtonEnabled (app s)
      then (case handleAutoCrop_start (app s) of
              (st1, None) \<Rightarrow> Some (s\<lparr>app := st1\<rparr>)
            | (st1, Some src) \<Rightarrow> Some (s\<lparr>app := st1, tasks := tasks s @ [src]\<rparr>))
      else None)"
| "ui_step createImage getCroppedImg (TaskSettled src) s =
     (if src \<in> set (tasks s)
      then Some (s\<lparr>app := handleAutoCrop_settle (cropTask createImage getCroppedImg src) (app s),
                   tasks := remove1 src (tasks s)\<rparr>)
      else None)"
| "ui_step createImage getCroppedImg ClickCancel s =
     (if cancelButtonEnabled (app s) then Some (s\<lparr>app := reset (app s)\<rparr>) else None)"
| "ui_step createImage getCroppedImg ClickDownload s =
     (if resultButtonsRendered (app s) then Some s else None)"
| "ui_step createImage getCroppedImg ClickChooseAnother s =
     (if resultButtonsRendered (app s) then Some (s\<lparr>app := reset (app s)\<rparr>) else None)"

fun ui_run ::
  "(string \<Rightarrow> failure + Image) \<Rightarrow> (string \<Rightarrow> Area \<Rightarrow> failure + string) \<Rightarrow> event list \<Rightarrow> UI
     \<Rightarrow> UI option" where
  "ui_run createImage getCroppedImg [] s = Some s"
| "ui_run createImage getCroppedImg (ev # evs) s =
     (case ui_step createImage getCroppedImg ev s of
        None \<Rightarrow> None
      | Some s' \<Rightarrow> ui_run createImage getCroppedImg evs s')"

text \<open>
  While the flag is up, a source is loaded and no cropped image is stored; and no
  pending reader will deliver the empty string.
\<close>

definition flagInvariant :: "UI \<Rightarrow> bool" where
  "flagInvariant s =
     ((\<not> isProcessing (app s) \<or> (\<not> falsy (imageSrc (app s)) \<and> falsy (croppedImage (app s)))) \<and>
      [] \<notin> set (readers s))"

section \<open>The planned region\<close>

lemma pixelCrop_fields:
  "x (pixelCrop img) = (of_int (Image.width img) - of_int (min (Image.width img) (Image.height img))) / 2"
  "y (pixelCrop img) = (of_int (Image.height img) - of_int (min (Image.width img) (Image.height img))) / 2"
  "Area.width (pixelCrop img) = of_int (min (Image.width img) (Image.height img))"
  "Area.height (pixelCrop img) = of_int (min (Image.width img) (Image.height img))"
  by (simp_all add: pixelCrop_def getMinSideLength_def Let_def)

text \<open>
  C1. For a decoded bitmap of positive width \<open>w\<close> and height \<open>h\<close>, the planned region
  is the square of side \<open>min w h\<close> whose offsets are \<open>(w - min w h) / 2\<close> and
  \<open>(h - min w h) / 2\<close>.
\<close>

theorem C1_pixelCrop_centred_square:
  assumes "0 < Image.width img" and "0 < Image.height img"
  shows "pixelCrop img =
           \<lparr>x = (of_int (Image.width img) - of_int (min (Image.width img) (Image.height img))) / 2,
            y = (of_int (Image.height img) - of_int (min (Image.width img) (Image.height img))) / 2,
            width = of_int (min (Image.width img) (Image.height img)),
            height = of_int (min (Image.width img) (Image.height img))\<rparr>"
  by (simp add: pixelCrop_def getMinSideLength_def Let_def)

text \<open>The 400 by 800 image of the first end-to-end scenario.\<close>

theorem C1_pixelCrop_400x800_witness:
  "(0::int) < 400 \<and> (0::int) < 800 \<and>
   pixelCrop \<lparr>Image.width = 400, Image.height = 800\<rparr> = \<lparr>x = 0, y = 200, width = 400, height = 400\<rparr>"
  using C1_pixelCrop_centred_square [of "\<lparr>Image.width = 400, Image.height = 800\<rparr>"]
  by simp

text \<open>
  C3. For a decoded bitmap of positive width and height the planned region lies inside
  the source: both offsets are non-negative, and offset plus side does not pass the
  width, respectively the height.
\<close>

theorem C3_pixelCrop_within_bounds:
  assumes "0 < Image.width img" and "0 < Image.height img"
  shows "0 \<le> x (pixelCrop img) \<and> 0 \<le> y (pixelCrop img) \<and>
         x (pixelCrop img) + Area.width (pixelCrop img) \<le> of_int (Image.width img) \<and>
         y (pixelCrop img) + Area.height (pixelCrop img) \<le> of_int (Image.height img)"
proof -
  let ?w = "Image.width img" and ?h = "Image.height img"
  have m: "(of_int (min ?w ?h) :: rat) \<le> of_int ?w" "(of_int (min ?w ?h) :: rat) \<le> of_int ?h"
    by simp_all
  show ?thesis
    unfolding pixelCrop_fields using m by (simp add: field_simps)
qed

theorem C3_pixelCrop_800x400_witness:
  "(0::int) < 800 \<and> (0::int) < 400 \<and>
   0 \<le> x (pixelCrop \<lparr>Image.width = 800, Image.height = 400\<rparr>) \<and>
   0 \<le> y (pixelCrop \<lparr>Image.width = 800, Image.height = 400\<rparr>) \<and>
   x (pixelCrop \<lparr>Image.width = 800, Image.height = 400\<rparr>)
     + Area.width (pixelCrop \<lparr>Image.width = 800, Image.height = 400\<rparr>) \<le> 800 \<and>
   y (pixelCrop \<lparr>Image.width = 800, Image.height = 400\<rparr>)
     + Area.height (pixelCrop \<lparr>Image.width = 800, Image.height = 400\<rparr>) \<le> 400"
  using C3_pixelCrop_within_bounds [of "\<lparr>Image.width = 800, Image.height = 400\<rparr>"]
  by simp

text \<open>
  C4. For a decoded bitmap whose width equals its height, the planned region is the
  whole image: offsets zero, side the common dimension.
\<close>

theorem C4_pixelCrop_square_identity:
  assumes "Image.width img = Image.height img"
  shows "pixelCrop img =
           \<lparr>x = 0, y = 0, width = of_int (Image.width img), height = of_int (Image.height img)\<rparr>"
  using assms by (simp add: pixelCrop_def getMinSideLength_def Let_def)

theorem C4_pixelCrop_500x500_witness:
  "Image.width \<lparr>Image.width = 500, Image.height = 500\<rparr>
     = Image.height \<lparr>Image.width = 500, Image.height = 500\<rparr> \<and>
   pixelCrop \<lparr>Image.width = 500, Image.height = 500\<rparr> = \<lparr>x = 0, y = 0, width = 500, height = 500\<rparr>"
  using C4_pixelCrop_square_identity [of "\<lparr>Image.width = 500, Image.height = 500\<rparr>"]
  by simp

text \<open>
  C2, as the code has it. The offsets are exact halves: no rounding rule is applied.
  For positive dimensions whose difference is odd, the offset along the longer
  dimension is the half difference, \<open>(d div 2) + 1/2\<close> for the difference \<open>d\<close>, which
  is not a whole number; the other offset is zero.
\<close>

theorem C2_odd_difference_exact_half:
  assumes "0 < Image.width img" and "0 < Image.height img"
    and "odd (max (Image.width img) (Image.height img) - min (Image.width img) (Image.height img))"
  shows "x (pixelCrop img) =
           (if Image.height img < Image.width img
            then of_int ((Image.width img - Image.height img) div 2) + 1 / 2 else 0) \<and>
         y (pixelCrop img) =
           (if Image.width img < Image.height img
            then of_int ((Image.height img - Image.width img) div 2) + 1 / 2 else 0) \<and>
         x (pixelCrop img) + y (pixelCrop img) \<notin> \<int>"
proof -
  let ?w = "Image.width img" and ?h = "Image.height img"
  have half: "(of_int d :: rat) / 2 = of_int (d div 2) + 1 / 2" if "odd d" for d :: int
  proof -
    from that obtain k where "d = 2 * k + 1" by (elim oddE)
    then show ?thesis by (simp add: field_simps)
  qed
  have notint: "(of_int k :: rat) + 1 / 2 \<notin> \<int>" for k :: int
  proof
    assume "(of_int k :: rat) + 1 / 2 \<in> \<int>"
    then obtain m :: int where "(of_int k :: rat) + 1 / 2 = of_int m" by (elim Ints_cases)
    then have "(of_int (2 * k + 1) :: rat) = of_int (2 * m)" by (simp add: field_simps)
    then have "2 * k + 1 = 2 * m" by (simp only: of_int_eq_iff)
    then show False by presburger
  qed
  consider "?w < ?h" | "?h < ?w" | "?w = ?h" by linarith
  then show ?thesis
  proof cases
    case 1
    then have "odd (?h - ?w)" using assms(3) by (simp add: max_def min_def)
    from half [OF this] have "(of_int ?h - of_int ?w :: rat) / 2 = of_int ((?h - ?w) div 2) + 1 / 2"
      by simp
    with 1 have xy: "x (pixelCrop img) = 0" "y (pixelCrop img) = of_int ((?h - ?w) div 2) + 1 / 2"
      unfolding pixelCrop_fields by (simp_all add: min_def)
    have "x (pixelCrop img) + y (pixelCrop img) \<notin> \<int>"
      unfolding xy using notint [of "(?h - ?w) div 2"] by simp
    with 1 xy show ?thesis by simp
  next
    case 2
    then have "odd (?w - ?h)" using assms(3) by (simp add: max_def min_def)
    from half [OF this] have "(of_int ?w - of_int ?h :: rat) / 2 = of_int ((?w - ?h) div 2) + 1 / 2"
      by simp
    with 2 have xy: "x (pixelCrop img) = of_int ((?w - ?h) div 2) + 1 / 2" "y (pixelCrop img) = 0"
      unfolding pixelCrop_fields by (simp_all add: min_def)
    have "x (pixelCrop img) + y (pixelCrop img) \<notin> \<int>"
      unfolding xy using notint [of "(?w - ?h) div 2"] by simp
    with 2 xy show ?thesis by simp
  next
    case 3
    with assms(3) show ?thesis by simp
  qed
qed

theorem C2_odd_difference_401x800_witness:
  "(0::int) < 401 \<and> (0::int) < 800 \<and> odd (max (401::int) 800 - min 401 800) \<and>
   x (pixelCrop \<lparr>Image.width = 401, Image.height = 800\<rparr>) = 0 \<and>
   y (pixelCrop \<lparr>Image.width = 401, Image.height = 800\<rparr>) = 399 / 2"
  using C2_odd_difference_exact_half [of "\<lparr>Image.width = 401, Image.height = 800\<rparr>"]
  by simp

text \<open>
  C2, as the claim has it, fails on the 401 by 800 image: the planned \<open>y\<close> offset is
  \<open>399/2\<close>, neither 199 nor 200, and it differs from its own floor.
\<close>

theorem C2_offset_401x800_counterexample:
  "y (pixelCrop \<lparr>Image.width = 401, Image.height = 800\<rparr>) = 399 / 2 \<and>
   y (pixelCrop \<lparr>Image.width = 401, Image.height = 800\<rparr>) \<noteq> 199 \<and>
   y (pixelCrop \<lparr>Image.width = 401, Image.height = 800\<rparr>) \<noteq> 200 \<and>
   of_int \<lfloor>y (pixelCrop \<lparr>Image.width = 401, Image.height = 800\<rparr>)\<rfloor>
     \<noteq> y (pixelCrop \<lparr>Image.width = 401, Image.height = 800\<rparr>)"
proof -
  have v: "y (pixelCrop \<lparr>Image.width = 401, Image.height = 800\<rparr>) = 399 / 2"
    by (simp add: pixelCrop_def getMinSideLength_def Let_def)
  have f: "\<lfloor>(399::rat) / 2\<rfloor> = 199"
    by (rule floor_unique) simp_all
  show ?thesis unfolding v f by simp
qed

section \<open>The crop operation on the state\<close>

lemma handleAutoCrop_loaded:
  assumes "imageSrc st = Some src" and "src \<noteq> []"
  shows "handleAutoCrop createImage getCroppedImg st =
           handleAutoCrop_settle (cropTask createImage getCroppedImg src) (st\<lparr>isProcessing := True\<rparr>)"
  using assms by (simp add: handleAutoCrop_def handleAutoCrop_start_def falsy_def)

lemma handleAutoCrop_settle_failure:
  "handleAutoCrop_settle (Inl e) st =
     st\<lparr>error := Some ''Failed to process image. Please try another one.'', isProcessing := False\<rparr>"
  by (simp add: handleAutoCrop_settle_def)

lemma handleAutoCrop_settle_success:
  "handleAutoCrop_settle (Inr r) st = st\<lparr>croppedImage := Some r, isProcessing := False\<rparr>"
  by (simp add: handleAutoCrop_settle_def)

text \<open>
  C5. When the decoder rejects, or the renderer rejects the planned region, the run
  stores no cropped image: \<open>croppedImage\<close> is what it was before the run (absent, when
  it was absent), and \<open>error\<close> holds the one processing-failed message.
\<close>

theorem C5_failure_leaves_no_output:
  assumes "imageSrc st = Some src" and "src \<noteq> []"
    and "createImage src = Inl e \<or>
         (\<exists>img. createImage src = Inr img \<and> getCroppedImg src (pixelCrop img) = Inl e)"
  shows "croppedImage (handleAutoCrop createImage getCroppedImg st) = croppedImage st \<and>
         error (handleAutoCrop createImage getCroppedImg st) =
           Some ''Failed to process image. Please try another one.''"
proof -
  from assms(3) have "cropTask createImage getCroppedImg src = Inl e"
    by (auto simp: cropTask_def)
  then show ?thesis
    by (simp add: handleAutoCrop_loaded [OF assms(1,2)] handleAutoCrop_settle_failure)
qed

text \<open>A decoder that rejects, and a renderer that rejects a decoded 400 by 800 image.\<close>

theorem C5_failure_witness:
  "croppedImage (handleAutoCrop decodeFails renderTag (loadedState ''data:A'')) = None \<and>
   error (handleAutoCrop decodeFails renderTag (loadedState ''data:A'')) =
     Some ''Failed to process image. Please try another one.'' \<and>
   croppedImage (handleAutoCrop (decodeAs 400 800) renderFails (loadedState ''data:A'')) = None \<and>
   error (handleAutoCrop (decodeAs 400 800) renderFails (loadedState ''data:A'')) =
     Some ''Failed to process image. Please try another one.''"
proof -
  have src: "imageSrc (loadedState ''data:A'') = Some ''data:A''" "''data:A'' \<noteq> []"
    by (simp_all add: loadedState_def)
  have d: "decodeFails ''data:A'' = Inl DecodeError \<or>
           (\<exists>img. decodeFails ''data:A'' = Inr img \<and> renderTag ''data:A'' (pixelCrop img) = Inl DecodeError)"
    by (simp add: decodeFails_def)
  have r: "decodeAs 400 800 ''data:A'' = Inl RenderError \<or>
           (\<exists>img. decodeAs 400 800 ''data:A'' = Inr img \<and>
                  renderFails ''data:A'' (pixelCrop img) = Inl RenderError)"
    by (simp add: decodeAs_def renderFails_def)
  show ?thesis
    using
      C5_failure_leaves_no_output [where st = "loadedState ''data:A''" and src = "''data:A''"
        and createImage = decodeFails and getCroppedImg = renderTag and e = DecodeError, OF src d]
      C5_failure_leaves_no_output [where st = "loadedState ''data:A''" and src = "''data:A''"
        and createImage = "decodeAs 400 800" and getCroppedImg = renderFails and e = RenderError,
        OF src r]
    by (simp add: loadedState_def)
qed

text \<open>
  C6. In every run that produces an output, the output image is square with side the
  shorter dimension of the decoded source, and nothing is scaled: the region handed to
  the renderer has that width and height, the surface has the size of the region, the
  rectangle copied from the source has the size of the surface, and the encoded output
  stored in \<open>croppedImage\<close> has the size of the surface.
\<close>

theorem C6_output_side_is_min:
  assumes "imageSrc st = Some src" and "src \<noteq> []" and "createImage src = Inr img"
    and "render acquire encode img (pixelCrop img) = Inr out"
  shows "handleAutoCrop createImage (getCroppedImg_spec createImage acquire encode) st =
           st\<lparr>croppedImage := Some (encoded out), isProcessing := False\<rparr> \<and>
         outputWidth out = of_int (min (Image.width img) (Image.height img)) \<and>
         outputHeight out = of_int (min (Image.width img) (Image.height img)) \<and>
         Area.width (pixelCrop img) = of_int (min (Image.width img) (Image.height img)) \<and>
         Area.height (pixelCrop img) = of_int (min (Image.width img) (Image.height img)) \<and>
         copyToX (drawRegion (pixelCrop img)) - copyFromX (drawRegion (pixelCrop img))
           = surfaceWidth (drawRegion (pixelCrop img)) \<and>
         copyToY (drawRegion (pixelCrop img)) - copyFromY (drawRegion (pixelCrop img))
           = surfaceHeight (drawRegion (pixelCrop img)) \<and>
         surfaceWidth (drawRegion (pixelCrop img)) = outputWidth out \<and>
         surfaceHeight (drawRegion (pixelCrop img)) = outputHeight out"
proof -
  have task: "cropTask createImage (getCroppedImg_spec createImage acquire encode) src
                = Inr (encoded out)"
    using assms(3,4) by (simp add: cropTask_def getCroppedImg_spec_def)
  have run: "handleAutoCrop createImage (getCroppedImg_spec createImage acquire encode) st =
               st\<lparr>croppedImage := Some (encoded out), isProcessing := False\<rparr>"
    by (simp add: handleAutoCrop_loaded [OF assms(1,2)] task handleAutoCrop_settle_success)
  have size: "outputWidth out = surfaceWidth (drawRegion (pixelCrop img))"
    "outputHeight out = surfaceHeight (drawRegion (pixelCrop img))"
    using assms(4) by (auto simp: render_def split: if_splits sum.splits)
  have surface: "surfaceWidth (drawRegion (pixelCrop img)) = Area.width (pixelCrop img)"
    "surfaceHeight (drawRegion (pixelCrop img)) = Area.height (pixelCrop img)"
    "copyToX (drawRegion (pixelCrop img)) - copyFromX (drawRegion (pixelCrop img))
       = Area.width (pixelCrop img)"
    "copyToY (drawRegion (pixelCrop img)) - copyFromY (drawRegion (pixelCrop img))
       = Area.height (pixelCrop img)"
    by (simp_all add: drawRegion_def)
  show ?thesis
    unfolding size surface pixelCrop_fields using run by simp
qed

text \<open>The 400 by 800 image: the stored output is 400 by 400.\<close>

theorem C6_output_400x800_witness:
  "imageSrc (loadedState ''data:A'') = Some ''data:A'' \<and>
   decodeAs 400 800 ''data:A'' = Inr \<lparr>Image.width = 400, Image.height = 800\<rparr> \<and>
   render acquireAlways encodeJpeg \<lparr>Image.width = 400, Image.height = 800\<rparr>
       (pixelCrop \<lparr>Image.width = 400, Image.height = 800\<rparr>)
     = Inr \<lparr>outputWidth = 400, outputHeight = 400, encoded = ''data:image/jpeg''\<rparr> \<and>
   handleAutoCrop (decodeAs 400 800) (getCroppedImg_spec (decodeAs 400 800) acquireAlways encodeJpeg)
       (loadedState ''data:A'')
     = \<lparr>imageSrc = Some ''data:A'', croppedImage = Some ''data:image/jpeg'',
        isProcessing = False, error = None\<rparr>"
proof -
  have src: "imageSrc (loadedState ''data:A'') = Some ''data:A''" "''data:A'' \<noteq> []"
    by (simp_all add: loadedState_def)
  have d: "decodeAs 400 800 ''data:A'' = Inr \<lparr>Image.width = 400, Image.height = 800\<rparr>"
    by (simp add: decodeAs_def)
  have r: "render acquireAlways encodeJpeg \<lparr>Image.width = 400, Image.height = 800\<rparr>
             (pixelCrop \<lparr>Image.width = 400, Image.height = 800\<rparr>)
           = Inr \<lparr>outputWidth = 400, outputHeight = 400, encoded = ''data:image/jpeg''\<rparr>"
    by (simp add: render_def acquireAlways_def encodeJpeg_def drawRegion_def pixelCrop_fields)
  show ?thesis
    using
      C6_output_side_is_min [where st = "loadedState ''data:A''" and src = "''data:A''"
        and createImage = "decodeAs 400 800" and acquire = acquireAlways and encode = encodeJpeg
        and img = "\<lparr>Image.width = 400, Image.height = 800\<rparr>"
        and out = "\<lparr>outputWidth = 400, outputHeight = 400, encoded = ''data:image/jpeg''\<rparr>",
        OF src d r]
      src(1) d r
    by (simp add: loadedState_def)
qed

lemma handleAutoCrop_settle_flag: "\<not> isProcessing (handleAutoCrop_settle outcome st)"
  by (cases outcome) (simp_all add: handleAutoCrop_settle_def)

lemma flagInvariant_initialUI: "flagInvariant initialUI"
  by (simp add: flagInvariant_def initialUI_def)

lemma flagInvariant_ui_step:
  assumes "flagInvariant s" and "ui_step createImage getCroppedImg ev s = Some s'"
  shows "flagInvariant s'"
proof (cases ev)
  case (FilesChosen files)
  with assms show ?thesis
    by (auto simp: flagInvariant_def readAsDataURL_def split: if_splits option.splits)
next
  case (ReaderLoaded result)
  with assms have "result \<noteq> []" and "[] \<notin> set (remove1 result (readers s))"
    by (auto simp: flagInvariant_def split: if_splits dest: notin_set_remove1)
  with assms ReaderLoaded show ?thesis
    by (auto simp: flagInvariant_def reader_onload_def falsy_def split: if_splits)
next
  case ClickCrop
  with assms show ?thesis
    by (auto simp: flagInvariant_def cropButtonEnabled_def handleAutoCrop_start_def
        split: if_splits option.splits)
next
  case (TaskSettled src)
  with assms show ?thesis
    by (auto simp: flagInvariant_def handleAutoCrop_settle_flag split: if_splits)
next
  case ClickCancel
  with assms show ?thesis
    by (auto simp: flagInvariant_def cancelButtonEnabled_def reset_def split: if_splits)
next
  case ClickDownload
  with assms show ?thesis
    by (auto split: if_splits)
next
  case ClickChooseAnother
  with assms show ?thesis
    by (auto simp: flagInvariant_def resultButtonsRendered_def reset_def split: if_splits)
qed

lemma flagInvariant_ui_run:
  "flagInvariant s \<Longrightarrow> ui_run createImage getCroppedImg evs s = Some s' \<Longrightarrow> flagInvariant s'"
proof (induction evs arbitrary: s)
  case Nil
  then show ?case by simp
next
  case (Cons ev evs)
  then show ?case
    by (auto split: option.splits dest: flagInvariant_ui_step)
qed

text \<open>
  C9. Every run of the crop operation ends with the processing flag false, whether it
  succeeds or fails. In every state the application reaches through user events,
  reader results and settling tasks, a run of \<open>handleAutoCrop\<close> ends with
  \<open>isProcessing\<close> false; a run started from the enabled crop button has the flag set
  to true once past its entry; and the settling of a task sets the flag to false in
  whatever state it arrives and with whatever outcome.
\<close>

theorem C9_every_run_ends_with_flag_down:
  assumes "ui_run createImage getCroppedImg evs initialUI = Some s"
  shows "\<not> isProcessing (handleAutoCrop createImage getCroppedImg (app s)) \<and>
         (cropButtonEnabled (app s) \<longrightarrow> isProcessing (fst (handleAutoCrop_start (app s)))) \<and>
         \<not> isProcessing (handleAutoCrop_settle outcome st')"
proof -
  from flagInvariant_ui_run [OF flagInvariant_initialUI assms]
  have inv: "\<not> isProcessing (app s) \<or> \<not> falsy (imageSrc (app s))"
    by (auto simp: flagInvariant_def)
  have run: "\<not> isProcessing (handleAutoCrop createImage getCroppedImg (app s))"
  proof (cases "falsy (imageSrc (app s))")
    case True
    with inv show ?thesis
      by (simp add: handleAutoCrop_def handleAutoCrop_start_def)
  next
    case False
    then obtain src where "imageSrc (app s) = Some src" and "src \<noteq> []"
      by (auto simp: falsy_def split: option.splits)
    then show ?thesis
      by (simp add: handleAutoCrop_loaded handleAutoCrop_settle_flag)
  qed
  have entry: "cropButtonEnabled (app s) \<longrightarrow> isProcessing (fst (handleAutoCrop_start (app s)))"
    by (simp add: cropButtonEnabled_def handleAutoCrop_start_def)
  from run entry show ?thesis
    by (simp add: handleAutoCrop_settle_flag)
qed

text \<open>
  A file is chosen and its reader fires; the crop button is then enabled, and the run
  ends with the flag down with a decoder that succeeds and with one that rejects.
\<close>

theorem C9_every_run_witness:
  "ui_run (decodeAs 400 800) renderTag [FilesChosen (Some [''A'']), ReaderLoaded ''data:A''] initialUI
     = Some \<lparr>app = loadedState ''data:A'', readers = [], tasks = []\<rparr> \<and>
   ui_run decodeFails renderTag [FilesChosen (Some [''A'']), ReaderLoaded ''data:A''] initialUI
     = Some \<lparr>app = loadedState ''data:A'', readers = [], tasks = []\<rparr> \<and>
   cropButtonEnabled (loadedState ''data:A'') \<and>
   isProcessing (fst (handleAutoCrop_start (loadedState ''data:A''))) \<and>
   \<not> isProcessing (handleAutoCrop (decodeAs 400 800) renderTag (loadedState ''data:A'')) \<and>
   \<not> isProcessing (handleAutoCrop decodeFails renderTag (loadedState ''data:A''))"
proof -
  have r: "ui_run createImage getCroppedImg
             [FilesChosen (Some [''A'']), ReaderLoaded ''data:A''] initialUI
           = Some \<lparr>app = loadedState ''data:A'', readers = [], tasks = []\<rparr>"
    for createImage getCroppedImg
    by (simp add: initialUI_def uploadRendered_def falsy_def onFileChange_def readAsDataURL_def
        reader_onload_def loadedState_def)
  have b: "cropButtonEnabled (loadedState ''data:A'')"
    by (simp add: cropButtonEnabled_def loadedState_def falsy_def)
  show ?thesis
    using
      C9_every_run_ends_with_flag_down [where createImage = "decodeAs 400 800"
        and getCroppedImg = renderTag
        and evs = "[FilesChosen (Some [''A'']), ReaderLoaded ''data:A'']"
        and s = "\<lparr>app = loadedState ''data:A'', readers = [], tasks = []\<rparr>", OF r]
      C9_every_run_ends_with_flag_down [where createImage = decodeFails
        and getCroppedImg = renderTag
        and evs = "[FilesChosen (Some [''A'']), ReaderLoaded ''data:A'']"
        and s = "\<lparr>app = loadedState ''data:A'', readers = [], tasks = []\<rparr>", OF r]
      r b
    by simp
qed

text \<open>
  C10. With no image source loaded, the crop operation changes nothing: it starts no
  task, and the state after it is the state before it.
\<close>

theorem C10_no_source_is_noop:
  assumes "imageSrc st = None"
  shows "handleAutoCrop createImage getCroppedImg st = st \<and> handleAutoCrop_start st = (st, None)"
  using assms by (simp add: handleAutoCrop_def handleAutoCrop_start_def falsy_def)

theorem C10_no_source_witness:
  "imageSrc (reset (loadedState ''data:A'')) = None \<and>
   handleAutoCrop (decodeAs 400 800) renderTag (reset (loadedState ''data:A''))
     = reset (loadedState ''data:A'')"
proof -
  have n: "imageSrc (reset (loadedState ''data:A'')) = None"
    by (simp add: reset_def)
  show ?thesis
    using C10_no_source_is_noop [where st = "reset (loadedState ''data:A'')"
        and createImage = "decodeAs 400 800" and getCroppedImg = renderTag, OF n] n
    by simp
qed

section \<open>A new source while a crop is pending\<close>

text \<open>
  C7, as the code has it. Loading a new source clears the cropped image and the error
  stored for the previous one. A settling task carries no token of the source it was
  started for: it writes its result into the state it finds and leaves \<open>imageSrc\<close>
  alone. When nothing is loaded between the start of a run and its settling, the
  stored result is the crop of the source the state holds.
\<close>

theorem C7_settle_is_unguarded:
  assumes "imageSrc st = Some src" and "src \<noteq> []"
    and "cropTask createImage getCroppedImg src = Inr r"
  shows "imageSrc (reader_onload new st') = Some new \<and>
         croppedImage (reader_onload new st') = None \<and>
         error (reader_onload new st') = None \<and>
         imageSrc (handleAutoCrop_settle outcome st') = imageSrc st' \<and>
         croppedImage (handleAutoCrop_settle (Inr r) st') = Some r \<and>
         imageSrc (handleAutoCrop createImage getCroppedImg st) = Some src \<and>
         croppedImage (handleAutoCrop createImage getCroppedImg st) = Some r"
proof -
  have "imageSrc (handleAutoCrop_settle outcome st') = imageSrc st'"
    by (cases outcome) (simp_all add: handleAutoCrop_settle_def)
  then show ?thesis
    using assms
    by (simp add: handleAutoCrop_loaded [OF assms(1,2)] handleAutoCrop_settle_success
        reader_onload_def)
qed

theorem C7_settle_witness:
  "cropTask (decodeAs 400 800) renderTag ''data:B'' = Inr ''crop-of-data:B'' \<and>
   imageSrc (handleAutoCrop (decodeAs 400 800) renderTag (loadedState ''data:B'')) = Some ''data:B'' \<and>
   croppedImage (handleAutoCrop (decodeAs 400 800) renderTag (loadedState ''data:B''))
     = Some ''crop-of-data:B''"
proof -
  have src: "imageSrc (loadedState ''data:B'') = Some ''data:B''" "''data:B'' \<noteq> []"
    by (simp_all add: loadedState_def)
  have t: "cropTask (decodeAs 400 800) renderTag ''data:B'' = Inr ''crop-of-data:B''"
    by (simp add: cropTask_def decodeAs_def renderTag_def)
  show ?thesis
    using C7_settle_is_unguarded [where st = "loadedState ''data:B''" and src = "''data:B''"
        and createImage = "decodeAs 400 800" and getCroppedImg = renderTag
        and r = "''crop-of-data:B''", OF src t] t
    by simp
qed

text \<open>
  C7, as the claim has it, fails. A crop is started for source B; before it settles, a
  reader that was still running delivers source A; then the crop of B settles. The
  state now shows source A together with the crop of B.
\<close>

theorem C7_stale_completion_counterexample:
  "snd (handleAutoCrop_start (loadedState ''data:B'')) = Some ''data:B'' \<and>
   croppedImage (reader_onload ''data:A'' (fst (handleAutoCrop_start (loadedState ''data:B''))))
     = None \<and>
   imageSrc (handleAutoCrop_settle (cropTask (decodeAs 400 800) renderTag ''data:B'')
       (reader_onload ''data:A'' (fst (handleAutoCrop_start (loadedState ''data:B'')))))
     = Some ''data:A'' \<and>
   croppedImage (handleAutoCrop_settle (cropTask (decodeAs 400 800) renderTag ''data:B'')
       (reader_onload ''data:A'' (fst (handleAutoCrop_start (loadedState ''data:B'')))))
     = Some ''crop-of-data:B''"
  by (simp add: handleAutoCrop_start_def handleAutoCrop_settle_def falsy_def loadedState_def
      reader_onload_def cropTask_def decodeAs_def renderTag_def)

section \<open>Downloading the result\<close>

text \<open>
  C8. When a cropped image is stored and a download is requested, the anchor that is
  appended to the document, clicked and removed points at the cropped image and
  carries the file name \<open>square-crop.jpg\<close>: the prefix \<open>square-crop.\<close> followed by
  the extension.
\<close>

theorem C8_download_filename:
  assumes "croppedImage st = Some c" and "c \<noteq> []"
  shows "downloadImage st =
           [AppendChild \<lparr>href = c, download = ''square-crop.'' @ ''jpg''\<rparr>,
            Click \<lparr>href = c, download = ''square-crop.'' @ ''jpg''\<rparr>,
            RemoveChild \<lparr>href = c, download = ''square-crop.'' @ ''jpg''\<rparr>]"
  using assms by (simp add: downloadImage_def Let_def)

theorem C8_download_witness:
  "croppedImage (handleAutoCrop (decodeAs 400 800) renderTag (loadedState ''data:A''))
     = Some ''crop-of-data:A'' \<and>
   downloadImage (handleAutoCrop (decodeAs 400 800) renderTag (loadedState ''data:A'')) =
     [AppendChild \<lparr>href = ''crop-of-data:A'', download = ''square-crop.jpg''\<rparr>,
      Click \<lparr>href = ''crop-of-data:A'', download = ''square-crop.jpg''\<rparr>,
      RemoveChild \<lparr>href = ''crop-of-data:A'', download = ''square-crop.jpg''\<rparr>]"
proof -
  have c: "croppedImage (handleAutoCrop (decodeAs 400 800) renderTag (loadedState ''data:A''))
             = Some ''crop-of-data:A''"
    by (simp add: handleAutoCrop_def handleAutoCrop_start_def handleAutoCrop_settle_def falsy_def
        loadedState_def cropTask_def decodeAs_def renderTag_def)
  have ne: "''crop-of-data:A'' \<noteq> []" by simp
  show ?thesis
    using C8_download_filename [OF c ne] c by simp
qed

end
